theory Spec2Isabelle
  imports Complex_Main "HOL-Library.Word"
begin

section \<open>Shared vocabulary of the three plugins\<close>

text \<open>
  The plugins are the Go packages \<open>mpelasticsearch\<close>, \<open>mphaproxy\<close> and \<open>mpphpfpm\<close>. A Go
  function of type \<open>(T, error)\<close> returns a value with a nil error, returns an error, or
  panics; the three outcomes are kept apart. The errors the source makes itself
  (\<open>errors.New\<close>, \<open>fmt.Errorf\<close>) are constructors of their own; an error handed back by the
  standard library (\<open>net/http\<close>, \<open>encoding/json\<close>, \<open>io\<close>, \<open>net\<close>) is a \<open>LibraryError\<close>
  with its text.
\<close>

datatype error =
    LibraryError string
  | CannotHandleAsAHash
  | NotFloat64
  | MultipleNodeFound
  | RequestFailed string string
  | StatsCsvTooShort
  | CannotGetValues
  | FailedToFetchPhpFpm error

datatype panic =
    InterfaceConversion
  | NilPointerDereference

datatype 'a result = Ok 'a | Err error | Panic panic

text \<open>
  A value of Go's \<open>interface{}\<close> as \<open>encoding/json\<close> stores it: nil, bool, float64, string,
  \<open>[]interface{}\<close> or \<open>map[string]interface{}\<close>. The type \<open>'f\<close> stands for float64, whose
  values the Elasticsearch plugin only copies. A Go map is an association list read with
  \<open>map_of\<close>; reading an absent key gives the nil interface, here \<open>None\<close>.
\<close>

datatype 'f jvalue =
    JNil
  | JBool bool
  | JFloat64 'f
  | JString string
  | JSlice "'f jvalue list"
  | JMap "(string \<times> 'f jvalue) list"

type_synonym 'f jmap = "(string \<times> 'f jvalue) list"

subsection \<open>net/http as the plugins use it\<close>

text \<open>
  A \<open>time.Duration\<close> is an int64 count of nanoseconds, read with \<open>sint\<close>. The zero value of
  \<open>http.Client.Timeout\<close> is 0 and the zero value of \<open>Transport\<close> is nil, the default
  transport. The library calls themselves are parameters of the model: \<open>NewRequest\<close> says
  whether \<open>http.NewRequest\<close> fails for a method and URL, \<open>Do\<close> is \<open>client.Do\<close>. The type
  \<open>'b\<close> is that of a response body, an \<open>io.Reader\<close>.
\<close>

type_synonym Duration = "64 word"

definition Second :: Duration where
  "Second = 1000000000"

datatype RoundTripper =
    DefaultTransport
  | HttpTransport bool
  | FastCGITransport Duration

record http_Client =
  Transport :: RoundTripper
  Timeout :: Duration

record http_Request =
  Method :: string
  URL :: string
  UserAgent :: string
  BasicAuth :: "(string \<times> string) option"

record 'b http_Response =
  StatusCode :: int
  Status :: string
  Body :: 'b

record 'b net_http =
  NewRequest :: "string \<Rightarrow> string \<Rightarrow> error option"
  Do :: "http_Client \<Rightarrow> http_Request \<Rightarrow> error + 'b http_Response"

subsection \<open>The graph schema of go-mackerel-plugin\<close>




section \<open>mackerel-plugin-elasticsearch\<close>

definition metricPlace :: "(string \<times> string list) list" where
  "metricPlace =
    [(''http_opened'', [''http'', ''total_opened'']),
     (''total_indexing_index'', [''indices'', ''indexing'', ''index_total'']),
     (''total_indexing_delete'', [''indices'', ''indexing'', ''delete_total'']),
     (''total_get'', [''indices'', ''get'', ''total'']),
     (''total_search_query'', [''indices'', ''search'', ''query_total'']),
     (''total_search_fetch'', [''indices'', ''search'', ''fetch_total'']),
     (''total_merges'', [''indices'', ''merges'', ''total'']),
     (''total_refresh'', [''indices'', ''refresh'', ''total'']),
     (''total_flush'', [''indices'', ''flush'', ''total'']),
     (''total_warmer'', [''indices'', ''warmer'', ''total'']),
     (''total_percolate'', [''indices'', ''percolate'', ''total'']),
     (''total_suggest'', [''indices'', ''suggest'', ''total'']),
     (''docs_count'', [''indices'', ''docs'', ''count'']),
     (''docs_deleted'', [''indices'', ''docs'', ''deleted'']),
     (''fielddata_size'', [''indices'', ''fielddata'', ''memory_size_in_bytes'']),
     (''filter_cache_size'', [''indices'', ''filter_cache'', ''memory_size_in_bytes'']),
     (''segments_size'', [''indices'', ''segments'', ''memory_in_bytes'']),
     (''segments_index_writer_size'', [''indices'', ''segments'', ''index_writer_memory_in_bytes'']),
     (''segments_version_map_size'', [''indices'', ''segments'', ''version_map_memory_in_bytes'']),
     (''segments_fixed_bit_set_size'', [''indices'', ''segments'', ''fixed_bit_set_memory_in_bytes'']),
     (''evictions_fielddata'', [''indices'', ''fielddata'', ''evictions'']),
     (''evictions_filter_cache'', [''indices'', ''filter_cache'', ''evictions'']),
     (''heap_used'', [''jvm'', ''mem'', ''heap_used_in_bytes'']),
     (''heap_max'', [''jvm'', ''mem'', ''heap_max_in_bytes'']),
     (''threads_generic'', [''thread_pool'', ''generic'', ''threads'']),
     (''threads_index'', [''thread_pool'', ''index'', ''threads'']),
     (''threads_snapshot_data'', [''thread_pool'', ''snapshot_data'', ''threads'']),
     (''threads_get'', [''thread_pool'', ''get'', ''threads'']),
     (''threads_bench'', [''thread_pool'', ''bench'', ''threads'']),
     (''threads_snapshot'', [''thread_pool'', ''snapshot'', ''threads'']),
     (''threads_merge'', [''thread_pool'', ''merge'', ''threads'']),
     (''threads_suggest'', [''thread_pool'', ''suggest'', ''threads'']),
     (''threads_bulk'', [''thread_pool'', ''bulk'', ''threads'']),
     (''threads_optimize'', [''thread_pool'', ''optimize'', ''threads'']),
     (''threads_warmer'', [''thread_pool'', ''warmer'', ''threads'']),
     (''threads_flush'', [''thread_pool'', ''flush'', ''threads'']),
     (''threads_search'', [''thread_pool'', ''search'', ''threads'']),
     (''threads_percolate'', [''thread_pool'', ''percolate'', ''threads'']),
     (''threads_refresh'', [''thread_pool'', ''refresh'', ''threads'']),
     (''threads_management'', [''thread_pool'', ''management'', ''threads'']),
     (''threads_fetch_shard_started'', [''thread_pool'', ''fetch_shard_started'', ''threads'']),
     (''threads_fetch_shard_store'', [''thread_pool'', ''fetch_shard_store'', ''threads'']),
     (''threads_listener'', [''thread_pool'', ''listener'', ''threads'']),
     (''count_rx'', [''transport'', ''rx_count'']),
     (''count_tx'', [''transport'', ''tx_count'']),
     (''open_file_descriptors'', [''process'', ''open_file_descriptors'']),
     (''compilations'', [''script'', ''compilations'']),
     (''cache_evictions'', [''script'', ''cache_evictions'']),
     (''compilation_limit_triggered'', [''script'', ''compilation_limit_triggered''])]"

subsection \<open>getFloatValue\<close>

text \<open>
  The loop \<open>for i, k := range keys\<close> with its variables \<open>sm\<close> and \<open>val\<close>; \<open>n\<close> is
  \<open>len(keys)\<close> and \<open>i\<close> the index of the key at the head of the list. A type switch on
  \<open>sm[k]\<close> takes its \<open>default\<close> branch for a missing key (the nil interface) and for a value
  of any other dynamic type.
\<close>

fun getFloatValue_loop ::
  "nat \<Rightarrow> nat \<Rightarrow> string list \<Rightarrow> 'f jmap \<Rightarrow> 'f \<Rightarrow> error + 'f" where
  "getFloatValue_loop n i [] sm val = Inr val"
| "getFloatValue_loop n i (k # ks) sm val =
     (if i + 1 < n then
        (case map_of sm k of
           Some (JMap m) \<Rightarrow> getFloatValue_loop n (i + 1) ks m val
         | _ \<Rightarrow> Inl CannotHandleAsAHash)
      else
        (case map_of sm k of
           Some (JFloat64 x) \<Rightarrow> getFloatValue_loop n (i + 1) ks sm x
         | _ \<Rightarrow> Inl NotFloat64))"

definition getFloatValue :: "('f::zero) jmap \<Rightarrow> string list \<Rightarrow> error + 'f" where
  "getFloatValue s keys = getFloatValue_loop (length keys) 0 keys s 0"

subsection \<open>FetchMetrics\<close>

record ElasticsearchPlugin =
  URI :: string
  Prefix :: string
  LabelPrefix :: string
  Insecure :: bool
  User :: string
  Password :: string
  SuppressMissingError :: bool

text \<open>
  \<open>Decode\<close> is \<open>json.NewDecoder(resp.Body).Decode(&s)\<close> for \<open>s\<close> of type
  \<open>map[string]interface{}\<close>: an error, or the map it leaves in \<open>s\<close> (the nil map is \<open>[]\<close>).
\<close>

record ('b, 'f) es_env = "'b net_http" +
  Decode :: "'b \<Rightarrow> error + 'f jmap"

definition es_request :: "ElasticsearchPlugin \<Rightarrow> http_Request" where
  "es_request p =
     \<lparr>Method = ''GET'',
      URL = ElasticsearchPlugin.URI p @ ''/_nodes/_local/stats'',
      UserAgent = ''mackerel-plugin-elasticsearch'',
      BasicAuth =
        (if User p \<noteq> [] \<and> ElasticsearchPlugin.Password p \<noteq> []
         then Some (User p, ElasticsearchPlugin.Password p) else None)\<rparr>"

definition es_client :: "ElasticsearchPlugin \<Rightarrow> http_Client" where
  "es_client p = \<lparr>Transport = HttpTransport (Insecure p), Timeout = 0\<rparr>"

text \<open>
  \<open>for k := range nodes\<close> over the keys of \<open>nodes\<close>, in the order the list gives them (Go
  leaves the order of a map unspecified); \<open>n\<close> starts as the empty string.
\<close>

fun nodes_range :: "string list \<Rightarrow> string \<Rightarrow> error + string" where
  "nodes_range [] n = Inr n"
| "nodes_range (k # ks) n =
     (if n \<noteq> [] then Inl MultipleNodeFound else nodes_range ks k)"

text \<open>
  \<open>for k, v := range metricPlace\<close>. The state is the map \<open>stat\<close> and the lines written by
  \<open>logger.Errorf\<close>, each kept as the metric name and the error it reports.
\<close>

fun metricPlace_range ::
  "bool \<Rightarrow> ('f::zero) jmap \<Rightarrow> (string \<times> string list) list \<Rightarrow>
   (string \<rightharpoonup> 'f) \<Rightarrow> (string \<times> error) list \<Rightarrow>
   (string \<rightharpoonup> 'f) \<times> (string \<times> error) list" where
  "metricPlace_range suppress node [] stat logged = (stat, logged)"
| "metricPlace_range suppress node ((k, v) # rest) stat logged =
     (case getFloatValue node v of
        Inl err \<Rightarrow>
          metricPlace_range suppress node rest stat
            (if \<not> suppress then logged @ [(k, err)] else logged)
      | Inr val \<Rightarrow>
          metricPlace_range suppress node rest (stat(k \<mapsto> val)) logged)"

definition es_FetchMetrics ::
  "('b, 'f::zero) es_env \<Rightarrow> ElasticsearchPlugin \<Rightarrow>
   (string \<rightharpoonup> 'f) result \<times> (string \<times> error) list" where
  "es_FetchMetrics env p =
     (case NewRequest env ''GET'' (ElasticsearchPlugin.URI p @ ''/_nodes/_local/stats'') of
        Some err \<Rightarrow> (Err err, [])
      | None \<Rightarrow>
     (case Do env (es_client p) (es_request p) of
        Inl err \<Rightarrow> (Err err, [])
      | Inr resp \<Rightarrow>
     (case Decode env (Body resp) of
        Inl err \<Rightarrow> (Err err, [])
      | Inr s \<Rightarrow>
     (case map_of s ''nodes'' of
        Some (JMap nodes) \<Rightarrow>
          (case nodes_range (map fst nodes) [] of
             Inl err \<Rightarrow> (Err err, [])
           | Inr n \<Rightarrow>
          (case map_of nodes n of
             Some (JMap node) \<Rightarrow>
               (case metricPlace_range (SuppressMissingError p) node metricPlace Map.empty [] of
                  (stat, logged) \<Rightarrow> (Ok stat, logged))
           | _ \<Rightarrow> (Panic InterfaceConversion, [])))
      | _ \<Rightarrow> (Panic InterfaceConversion, [])))))"


section \<open>mackerel-plugin-haproxy\<close>


record HAProxyPlugin =
  URI :: string
  Username :: string
  Password :: string
  Socket :: string

text \<open>
  What \<open>csv.Reader.Read\<close> returns before it returns \<open>io.EOF\<close>: the columns and an error that
  is nil or another one than \<open>io.EOF\<close> (then the columns are nil, or the record read when only
  its number of fields is wrong). \<open>csv_Reader\<close> gives these results for an \<open>io.Reader\<close>.
  \<open>Dial\<close> is \<open>net.Dial\<close>; a connection is modelled by the reply it gives to what is written
  to it. \<open>ParseFloat s\<close> is \<open>strconv.ParseFloat(s, 64)\<close>, \<open>None\<close> when it returns an error.
\<close>

type_synonym csv_read = "string list \<times> error option"

record ('b, 'f) haproxy_env = "'b net_http" +
  Dial :: "string \<Rightarrow> string \<Rightarrow> error + (string \<Rightarrow> 'b)"
  csv_Reader :: "'b \<Rightarrow> csv_read list"
  ParseFloat :: "string \<Rightarrow> 'f option"

text \<open>\<open>stat[k] += data\<close>: a key that is absent reads as the zero value.\<close>

definition add_to :: "(string \<rightharpoonup> 'f::{zero,plus}) \<Rightarrow> string \<Rightarrow> 'f \<Rightarrow> (string \<rightharpoonup> 'f)" where
  "add_to stat k data = stat(k \<mapsto> (case stat k of None \<Rightarrow> 0 | Some v \<Rightarrow> v) + data)"

fun parseStats_loop ::
  "(string \<Rightarrow> 'f option) \<Rightarrow> csv_read list \<Rightarrow> (string \<rightharpoonup> 'f::{zero,plus}) \<Rightarrow>
   (string \<rightharpoonup> 'f) result" where
  "parseStats_loop pf [] stat = Ok stat"
| "parseStats_loop pf ((columns, err) # rest) stat =
     (if length columns < 60 then Err StatsCsvTooShort
      else if columns ! 1 \<noteq> ''BACKEND'' then parseStats_loop pf rest stat
      else
        (case pf (columns ! 7) of
           None \<Rightarrow> Err CannotGetValues
         | Some d7 \<Rightarrow>
        (case pf (columns ! 8) of
           None \<Rightarrow> Err CannotGetValues
         | Some d8 \<Rightarrow>
        (case pf (columns ! 9) of
           None \<Rightarrow> Err CannotGetValues
         | Some d9 \<Rightarrow>
        (case pf (columns ! 13) of
           None \<Rightarrow> Err CannotGetValues
         | Some d13 \<Rightarrow>
             parseStats_loop pf rest
               (add_to (add_to (add_to (add_to stat ''sessions'' d7) ''bytes_in'' d8)
                  ''bytes_out'' d9) ''connection_errors'' d13))))))"

definition parseStats ::
  "('b, 'f::{zero,plus}) haproxy_env \<Rightarrow> 'b \<Rightarrow> (string \<rightharpoonup> 'f) result" where
  "parseStats env statsBody = parseStats_loop (ParseFloat env) (csv_Reader env statsBody) Map.empty"

definition haproxy_client :: http_Client where
  "haproxy_client = \<lparr>Transport = DefaultTransport, Timeout = 5 * Second\<rparr>"

definition haproxy_request :: "HAProxyPlugin \<Rightarrow> http_Request" where
  "haproxy_request p =
     \<lparr>Method = ''GET'',
      URL = HAProxyPlugin.URI p @ '';csv;norefresh'',
      UserAgent = [],
      BasicAuth =
        (if Username p \<noteq> [] then Some (Username p, HAProxyPlugin.Password p) else None)\<rparr>"

definition fetchMetricsFromTCP ::
  "('b, 'f::{zero,plus}) haproxy_env \<Rightarrow> HAProxyPlugin \<Rightarrow> (string \<rightharpoonup> 'f) result" where
  "fetchMetricsFromTCP env p =
     (let requestURI = HAProxyPlugin.URI p @ '';csv;norefresh'' in
      case NewRequest env ''GET'' requestURI of
        Some err \<Rightarrow> Err err
      | None \<Rightarrow>
     (case Do env haproxy_client (haproxy_request p) of
        Inl err \<Rightarrow> Err err
      | Inr resp \<Rightarrow>
          if StatusCode resp \<noteq> 200 then Err (RequestFailed (Status resp) requestURI)
          else parseStats env (Body resp)))"

definition fetchMetricsFromSocket ::
  "('b, 'f::{zero,plus}) haproxy_env \<Rightarrow> HAProxyPlugin \<Rightarrow> (string \<rightharpoonup> 'f) result" where
  "fetchMetricsFromSocket env p =
     (case Dial env ''unix'' (Socket p) of
        Inl err \<Rightarrow> Err err
      | Inr client \<Rightarrow> parseStats env (client (''show stat'' @ [CHR 0x0A])))"

definition haproxy_FetchMetrics ::
  "('b, 'f::{zero,plus}) haproxy_env \<Rightarrow> HAProxyPlugin \<Rightarrow> (string \<rightharpoonup> 'f) result" where
  "haproxy_FetchMetrics env p =
     (if Socket p = [] then fetchMetricsFromTCP env p else fetchMetricsFromSocket env p)"


section \<open>mackerel-plugin-php-fpm\<close>

record PhpFpmPlugin =
  URL :: string
  Prefix :: string
  LabelPrefix :: string
  Timeout :: "64 word"
  FastCGI :: bool

record PhpFpmStatus =
  Pool :: string
  ProcessManager :: string
  StartTime :: "64 word"
  StartSince :: "64 word"
  AcceptedConn :: "64 word"
  ListenQueue :: "64 word"
  MaxListenQueue :: "64 word"
  ListenQueueLen :: "64 word"
  IdleProcesses :: "64 word"
  ActiveProcesses :: "64 word"
  TotalProcesses :: "64 word"
  MaxActiveProcesses :: "64 word"
  MaxChildrenReached :: "64 word"
  SlowRequests :: "64 word"

text \<open>
  \<open>ReadAll\<close> is \<open>ioutil.ReadAll(res.Body)\<close>, giving the bytes \<open>'c\<close> of the body or an error.
  \<open>Unmarshal body\<close> is \<open>json.Unmarshal(body, &status)\<close> for the nil pointer \<open>status\<close>: the
  pointer it leaves in \<open>status\<close> (\<open>None\<close> is nil) and the error it returns.
\<close>

record ('b, 'c) phpfpm_env = "'b net_http" +
  ReadAll :: "'b \<Rightarrow> error + 'c"
  Unmarshal :: "'c \<Rightarrow> PhpFpmStatus option \<times> error option"

definition MetricKeyPrefix :: "PhpFpmPlugin \<Rightarrow> string" where
  "MetricKeyPrefix p = PhpFpmPlugin.Prefix p"


text \<open>
  \<open>time.Duration(p.Timeout) * time.Second\<close>: the conversion of a 64-bit \<open>uint\<close> to int64 keeps
  the bits and the product wraps.
\<close>

definition phpfpm_timeout :: "PhpFpmPlugin \<Rightarrow> Duration" where
  "phpfpm_timeout p = PhpFpmPlugin.Timeout p * Second"

definition phpfpm_client :: "PhpFpmPlugin \<Rightarrow> http_Client" where
  "phpfpm_client p =
     \<lparr>Transport =
        (if FastCGI p then FastCGITransport (phpfpm_timeout p) else DefaultTransport),
      Timeout = phpfpm_timeout p\<rparr>"

definition phpfpm_request :: "PhpFpmPlugin \<Rightarrow> http_Request" where
  "phpfpm_request p =
     \<lparr>Method = ''GET'', URL = PhpFpmPlugin.URL p,
      UserAgent = ''mackerel-plugin-php-fpm'', BasicAuth = None\<rparr>"

text \<open>
  The error of \<open>json.Unmarshal\<close> is dropped by the source: \<open>getStatus\<close> returns the pointer
  and a nil error whatever it was.
\<close>

definition getStatus ::
  "('b, 'c) phpfpm_env \<Rightarrow> PhpFpmPlugin \<Rightarrow> error + PhpFpmStatus option" where
  "getStatus env p =
     (case NewRequest env ''GET'' (PhpFpmPlugin.URL p) of
        Some err \<Rightarrow> Inl err
      | None \<Rightarrow>
     (case Do env (phpfpm_client p) (phpfpm_request p) of
        Inl err \<Rightarrow> Inl err
      | Inr res \<Rightarrow>
     (case ReadAll env (Body res) of
        Inl err \<Rightarrow> Inl err
      | Inr body \<Rightarrow>
          (case Unmarshal env body of (status, err) \<Rightarrow> Inr status))))"

text \<open>Reading a field through the nil pointer panics.\<close>

definition phpfpm_FetchMetrics ::
  "('b, 'c) phpfpm_env \<Rightarrow> PhpFpmPlugin \<Rightarrow> (string \<rightharpoonup> 64 word) result" where
  "phpfpm_FetchMetrics env p =
     (case getStatus env p of
        Inl err \<Rightarrow> Err (FailedToFetchPhpFpm err)
      | Inr None \<Rightarrow> Panic NilPointerDereference
      | Inr (Some status) \<Rightarrow>
          Ok (map_of
            [(''total_processes'', TotalProcesses status),
             (''active_processes'', ActiveProcesses status),
             (''idle_processes'', IdleProcesses status),
             (''max_active_processes'', MaxActiveProcesses status),
             (''max_children_reached'', MaxChildrenReached status),
             (''listen_queue'', ListenQueue status),
             (''listen_queue_len'', ListenQueueLen status),
             (''max_listen_queue'', MaxListenQueue status),
             (''slow_requests'', SlowRequests status)]))"

section \<open>The words of the specification\<close>

text \<open>
  Following a path of keys through nested mappings, a value that is itself a nested
  mapping, and a value that is numeric: the notions the specification of the structured-path
  walk is written in.
\<close>

fun walk :: "'f jmap \<Rightarrow> string list \<Rightarrow> 'f jmap option" where
  "walk s [] = Some s"
| "walk s (k # ks) =
     (case map_of s k of Some (JMap m) \<Rightarrow> walk m ks | _ \<Rightarrow> None)"

fun is_mapping :: "'f jvalue option \<Rightarrow> bool" where
  "is_mapping (Some (JMap m)) = True"
| "is_mapping _ = False"

fun is_float64 :: "'f jvalue option \<Rightarrow> bool" where
  "is_float64 (Some (JFloat64 x)) = True"
| "is_float64 _ = False"

text \<open>
  For the Elasticsearch plugin, a declared metric is present in the payload of a node when
  its key path leads to a number there: \<open>present_metrics\<close> is the sample set of those
  metrics, \<open>missing_metrics\<close> lists the others with the error of the walk.
\<close>

definition present_metrics ::
  "('f::zero) jmap \<Rightarrow> (string \<times> string list) list \<Rightarrow> (string \<rightharpoonup> 'f)" where
  "present_metrics node places k =
     (case map_of places k of
        None \<Rightarrow> None
      | Some keys \<Rightarrow> (case getFloatValue node keys of Inl e \<Rightarrow> None | Inr x \<Rightarrow> Some x))"

definition missing_metrics ::
  "('f::zero) jmap \<Rightarrow> (string \<times> string list) list \<Rightarrow> (string \<times> error) list" where
  "missing_metrics node places =
     concat (map (\<lambda>(k, keys). case getFloatValue node keys of Inl e \<Rightarrow> [(k, e)] | Inr x \<Rightarrow> [])
       places)"

text \<open>
  For the tabular extractor: the discriminator of a row is its second column, the designated
  columns are 7, 8, 9 and 13, and the sum of a column over rows starts from an initial value
  and adds the rows in the order they are read.
\<close>

definition is_backend :: "csv_read \<Rightarrow> bool" where
  "is_backend r = (fst r ! 1 = ''BACKEND'')"

definition numeric_row :: "(string \<Rightarrow> 'f option) \<Rightarrow> csv_read \<Rightarrow> bool" where
  "numeric_row pf r =
     (pf (fst r ! 7) \<noteq> None \<and> pf (fst r ! 8) \<noteq> None
      \<and> pf (fst r ! 9) \<noteq> None \<and> pf (fst r ! 13) \<noteq> None)"

definition column_sum ::
  "(string \<Rightarrow> 'f option) \<Rightarrow> nat \<Rightarrow> 'f \<Rightarrow> csv_read list \<Rightarrow> 'f::plus" where
  "column_sum pf c init rows =
     foldl (\<lambda>acc r. case pf (fst r ! c) of None \<Rightarrow> acc | Some d \<Rightarrow> acc + d) init rows"




section \<open>Example runs\<close>

text \<open>
  The plugin as \<open>Do\<close> configures it by default, and a target that answers every request
  with the given status line and a body holding the given JSON object; the body is
  identified with the object \<open>Decode\<close> reads from it. The example payload is
  \<^verbatim>\<open>{"nodes": {"n1": {"http": {"total_opened": 5}}}}\<close>: one node, one declared metric.
\<close>

definition es_example_plugin :: ElasticsearchPlugin where
  "es_example_plugin =
     \<lparr>ElasticsearchPlugin.URI = ''http://localhost:9200'',
      ElasticsearchPlugin.Prefix = ''elasticsearch'',
      ElasticsearchPlugin.LabelPrefix = ''Elasticsearch'',
      Insecure = False, User = [], ElasticsearchPlugin.Password = [],
      SuppressMissingError = False\<rparr>"

definition es_example_node :: "real jmap" where
  "es_example_node = [(''http'', JMap [(''total_opened'', JFloat64 5)])]"

definition es_example_payload :: "real jmap" where
  "es_example_payload = [(''nodes'', JMap [(''n1'', JMap es_example_node)])]"

definition es_example_env :: "int \<Rightarrow> string \<Rightarrow> real jmap \<Rightarrow> (real jmap, real) es_env" where
  "es_example_env code status payload =
     \<lparr>NewRequest = (\<lambda>method url. None),
      Do = (\<lambda>client req. Inr \<lparr>StatusCode = code, Status = status, Body = payload\<rparr>),
      Decode = (\<lambda>body. Inr body)\<rparr>"

text \<open>
  For HAProxy: a row of the statistics CSV with 60 columns, of which the second is the
  discriminator and columns 7, 8, 9 and 13 are \<open>stot\<close>, \<open>bin\<close>, \<open>bout\<close> and \<open>econ\<close>; a target that
  answers every request, over HTTP or the socket, with the given rows; and
  \<open>strconv.ParseFloat\<close> on the number literals of the example.
\<close>

definition haproxy_example_row ::
  "string \<Rightarrow> string \<Rightarrow> string \<Rightarrow> string \<Rightarrow> string \<Rightarrow> csv_read" where
  "haproxy_example_row svname stot bin bout econ =
     ([''www'', svname, ''0'', ''0'', ''0'', ''0'', [], stot, bin, bout, ''0'', ''0'', ''0'', econ]
        @ replicate 46 [], None)"

definition example_ParseFloat :: "string \<Rightarrow> real option" where
  "example_ParseFloat = map_of [(''1'', 1), (''10'', 10), (''100'', 100), (''200'', 200)]"

definition haproxy_example_plugin :: HAProxyPlugin where
  "haproxy_example_plugin =
     \<lparr>HAProxyPlugin.URI = ''http://localhost:80/'', Username = [],
      HAProxyPlugin.Password = [], Socket = []\<rparr>"

definition haproxy_example_env ::
  "int \<Rightarrow> string \<Rightarrow> csv_read list \<Rightarrow> (csv_read list, real) haproxy_env" where
  "haproxy_example_env code status rows =
     \<lparr>NewRequest = (\<lambda>method url. None),
      Do = (\<lambda>client req. Inr \<lparr>StatusCode = code, Status = status, Body = rows\<rparr>),
      Dial = (\<lambda>network address. Inr (\<lambda>written. rows)),
      csv_Reader = (\<lambda>body. body),
      ParseFloat = example_ParseFloat\<rparr>"

text \<open>
  For PHP-FPM: the plugin as \<open>Do\<close> configures it by default, the status whose fields are
  all zero, and a target that answers every request with the given status line and body,
  for which \<open>json.Unmarshal\<close> has the given outcome.
\<close>

definition phpfpm_example_plugin :: PhpFpmPlugin where
  "phpfpm_example_plugin =
     \<lparr>PhpFpmPlugin.URL = ''http://localhost/status?json'',
      PhpFpmPlugin.Prefix = ''php-fpm'', PhpFpmPlugin.LabelPrefix = ''PHP-FPM'',
      PhpFpmPlugin.Timeout = 5, FastCGI = False\<rparr>"


definition phpfpm_example_env ::
  "int \<Rightarrow> string \<Rightarrow> 'c \<Rightarrow> PhpFpmStatus option \<times> error option \<Rightarrow> ('c, 'c) phpfpm_env" where
  "phpfpm_example_env code status body outcome =
     \<lparr>NewRequest = (\<lambda>method url. None),
      Do = (\<lambda>client req. Inr \<lparr>StatusCode = code, Status = status, Body = body\<rparr>),
      ReadAll = (\<lambda>b. Inr b),
      Unmarshal = (\<lambda>bytes. outcome)\<rparr>"

section \<open>The structured-path walk\<close>

lemma is_mapping_iff: "is_mapping v \<longleftrightarrow> (\<exists>m. v = Some (JMap m))"
  by (cases v rule: is_mapping.cases) simp_all

lemma is_float64_iff: "is_float64 v \<longleftrightarrow> (\<exists>x. v = Some (JFloat64 x))"
  by (cases v rule: is_float64.cases) simp_all

lemma walk_Cons_None:
  "\<not> is_mapping (map_of s k) \<Longrightarrow> walk s (k # ks) = None"
  by (cases "map_of s k" rule: is_mapping.cases) simp_all

lemma walk_broken:
  "i < length ks \<Longrightarrow> walk s (take i ks) = Some m \<Longrightarrow>
   \<not> is_mapping (map_of m (ks ! i)) \<Longrightarrow> walk s ks = None"
proof (induction ks arbitrary: s i)
  case Nil
  then show ?case by simp
next
  case (Cons k ks)
  show ?case
  proof (cases i)
    case 0
    with Cons.prems have "m = s" by simp
    with Cons.prems 0 have "\<not> is_mapping (map_of s k)" by simp
    then show ?thesis by (rule walk_Cons_None)
  next
    case (Suc j)
    show ?thesis
    proof (cases "is_mapping (map_of s k)")
      case False
      then show ?thesis by (rule walk_Cons_None)
    next
      case True
      then obtain m' where m': "map_of s k = Some (JMap m')"
        by (auto simp: is_mapping_iff)
      have "j < length ks" using Cons.prems(1) Suc by simp
      moreover have "walk m' (take j ks) = Some m"
        using Cons.prems(2) Suc m' by simp
      moreover have "\<not> is_mapping (map_of m (ks ! j))"
        using Cons.prems(3) Suc by simp
      ultimately have "walk m' ks = None" by (rule Cons.IH)
      then show ?thesis using m' by simp
    qed
  qed
qed

lemma walk_None_broken:
  "walk s ks = None \<Longrightarrow>
   \<exists>i m. i < length ks \<and> walk s (take i ks) = Some m \<and> \<not> is_mapping (map_of m (ks ! i))"
proof (induction ks arbitrary: s)
  case Nil
  then show ?case by simp
next
  case (Cons k ks)
  show ?case
  proof (cases "is_mapping (map_of s k)")
    case False
    have "0 < length (k # ks)" by simp
    moreover have "walk s (take 0 (k # ks)) = Some s" by simp
    moreover have "\<not> is_mapping (map_of s ((k # ks) ! 0))" using False by simp
    ultimately show ?thesis by blast
  next
    case True
    then obtain m' where m': "map_of s k = Some (JMap m')"
      by (auto simp: is_mapping_iff)
    with Cons.prems have "walk m' ks = None" by simp
    from Cons.IH [OF this] obtain j m where
      j: "j < length ks" and w: "walk m' (take j ks) = Some m"
      and b: "\<not> is_mapping (map_of m (ks ! j))" by blast
    have "Suc j < length (k # ks)" using j by simp
    moreover have "walk s (take (Suc j) (k # ks)) = Some m" using w m' by simp
    moreover have "\<not> is_mapping (map_of m ((k # ks) ! Suc j))" using b by simp
    ultimately show ?thesis by blast
  qed
qed

text \<open>
  The loop of \<open>getFloatValue\<close>, started at index \<open>i\<close> with \<open>n - i\<close> keys left, walks all keys
  but the last and reads the last one as a float64.
\<close>

lemma getFloatValue_loop_walk:
  "ks \<noteq> [] \<Longrightarrow> n = i + length ks \<Longrightarrow>
   getFloatValue_loop n i ks sm val =
     (case walk sm (butlast ks) of
        None \<Rightarrow> Inl CannotHandleAsAHash
      | Some m \<Rightarrow>
          (case map_of m (last ks) of
             Some (JFloat64 x) \<Rightarrow> Inr x
           | _ \<Rightarrow> Inl NotFloat64))"
proof (induction ks arbitrary: i sm)
  case Nil
  then show ?case by simp
next
  case (Cons k ks)
  show ?case
  proof (cases "ks = []")
    case True
    with Cons.prems show ?thesis
      by (simp split: option.splits jvalue.splits)
  next
    case False
    with Cons.prems have "i + 1 < n" by (cases ks) auto
    moreover have "n = (i + 1) + length ks" using Cons.prems by simp
    ultimately show ?thesis
      using False Cons.IH [of "i + 1"]
      by (simp split: option.splits jvalue.splits)
  qed
qed

lemma getFloatValue_walk:
  "keys \<noteq> [] \<Longrightarrow>
   getFloatValue s keys =
     (case walk s (butlast keys) of
        None \<Rightarrow> Inl CannotHandleAsAHash
      | Some m \<Rightarrow>
          (case map_of m (last keys) of
             Some (JFloat64 x) \<Rightarrow> Inr x
           | _ \<Rightarrow> Inl NotFloat64))"
  unfolding getFloatValue_def by (rule getFloatValue_loop_walk) simp_all

lemma getFloatValue_Inr_iff:
  "keys \<noteq> [] \<Longrightarrow>
   getFloatValue s keys = Inr x \<longleftrightarrow>
     (\<exists>m. walk s (butlast keys) = Some m \<and> map_of m (last keys) = Some (JFloat64 x))"
  by (simp add: getFloatValue_walk split: option.splits jvalue.splits)

lemma getFloatValue_Inl_iff:
  "keys \<noteq> [] \<Longrightarrow>
   isl (getFloatValue s keys) \<longleftrightarrow>
     walk s (butlast keys) = None
     \<or> (\<exists>m. walk s (butlast keys) = Some m \<and> \<not> is_float64 (map_of m (last keys)))"
  by (simp add: getFloatValue_walk is_float64_iff split: option.splits jvalue.splits)

text \<open>
  C8. For every nested string-keyed mapping \<open>s\<close> and every non-empty key path,
  \<open>getFloatValue\<close> returns an error if and only if the value of some non-terminal key is
  missing or is not itself a nested mapping, or the value of the terminal key is missing or
  is not a float64; otherwise it returns the float64 reached by following the path.
\<close>

theorem getFloatValue_error_iff:
  assumes "keys \<noteq> []"
  shows "(isl (getFloatValue s keys) \<longleftrightarrow>
            (\<exists>i m. i + 1 < length keys \<and> walk s (take i keys) = Some m
                    \<and> \<not> is_mapping (map_of m (keys ! i)))
            \<or> (\<exists>m. walk s (butlast keys) = Some m
                    \<and> \<not> is_float64 (map_of m (last keys))))
         \<and> (\<not> isl (getFloatValue s keys) \<longrightarrow>
              (\<exists>m x. walk s (butlast keys) = Some m
                     \<and> map_of m (last keys) = Some (JFloat64 x)
                     \<and> getFloatValue s keys = Inr x))"
proof -
  have len: "length (butlast keys) = length keys - 1" by simp
  have broken: "walk s (butlast keys) = None \<longleftrightarrow>
      (\<exists>i m. i + 1 < length keys \<and> walk s (take i keys) = Some m
              \<and> \<not> is_mapping (map_of m (keys ! i)))"
  proof
    assume "walk s (butlast keys) = None"
    from walk_None_broken [OF this] obtain i m where
      i: "i < length (butlast keys)" and w: "walk s (take i (butlast keys)) = Some m"
      and b: "\<not> is_mapping (map_of m (butlast keys ! i))" by blast
    have "i + 1 < length keys" using i by simp
    moreover have "take i (butlast keys) = take i keys"
      using i by (simp add: take_butlast)
    moreover have "butlast keys ! i = keys ! i"
      using i by (simp add: nth_butlast)
    ultimately show "\<exists>i m. i + 1 < length keys \<and> walk s (take i keys) = Some m
              \<and> \<not> is_mapping (map_of m (keys ! i))"
      using w b by auto
  next
    assume "\<exists>i m. i + 1 < length keys \<and> walk s (take i keys) = Some m
              \<and> \<not> is_mapping (map_of m (keys ! i))"
    then obtain i m where i: "i + 1 < length keys"
      and w: "walk s (take i keys) = Some m"
      and b: "\<not> is_mapping (map_of m (keys ! i))" by blast
    have i': "i < length (butlast keys)" using i by simp
    moreover have "walk s (take i (butlast keys)) = Some m"
      using i' w by (simp add: take_butlast)
    moreover have "\<not> is_mapping (map_of m (butlast keys ! i))"
      using i' b by (simp add: nth_butlast)
    ultimately show "walk s (butlast keys) = None" by (rule walk_broken)
  qed
  have first: "isl (getFloatValue s keys) \<longleftrightarrow>
            (\<exists>i m. i + 1 < length keys \<and> walk s (take i keys) = Some m
                    \<and> \<not> is_mapping (map_of m (keys ! i)))
            \<or> (\<exists>m. walk s (butlast keys) = Some m
                    \<and> \<not> is_float64 (map_of m (last keys)))"
    using getFloatValue_Inl_iff [OF assms, of s] broken by simp
  have second: "\<not> isl (getFloatValue s keys) \<longrightarrow>
              (\<exists>m x. walk s (butlast keys) = Some m
                     \<and> map_of m (last keys) = Some (JFloat64 x)
                     \<and> getFloatValue s keys = Inr x)"
  proof
    assume "\<not> isl (getFloatValue s keys)"
    then obtain x where x: "getFloatValue s keys = Inr x"
      by (cases "getFloatValue s keys") auto
    then obtain m where "walk s (butlast keys) = Some m"
      "map_of m (last keys) = Some (JFloat64 x)"
      using getFloatValue_Inr_iff [OF assms, of s x] by blast
    with x show "\<exists>m x. walk s (butlast keys) = Some m
                     \<and> map_of m (last keys) = Some (JFloat64 x)
                     \<and> getFloatValue s keys = Inr x" by blast
  qed
  from first second show ?thesis by blast
qed

theorem getFloatValue_error_iff_witness:
  "[''http'', ''total_opened''] \<noteq> []
   \<and> \<not> isl (getFloatValue [(''http'', JMap [(''total_opened'', JFloat64 (5::int))])]
              [''http'', ''total_opened''])
   \<and> (\<exists>m x. walk [(''http'', JMap [(''total_opened'', JFloat64 (5::int))])]
               (butlast [''http'', ''total_opened'']) = Some m
            \<and> map_of m (last [''http'', ''total_opened'']) = Some (JFloat64 x)
            \<and> getFloatValue [(''http'', JMap [(''total_opened'', JFloat64 5)])]
                 [''http'', ''total_opened''] = Inr x)
   \<and> isl (getFloatValue [(''http'', JString ''down'')] [''http'', ''total_opened''] :: error + int)"
proof -
  have ne: "[''http'', ''total_opened''] \<noteq> []" by simp
  have ok: "\<not> isl (getFloatValue [(''http'', JMap [(''total_opened'', JFloat64 (5::int))])]
              [''http'', ''total_opened''])"
    by (simp add: getFloatValue_def)
  have bad: "(\<exists>i m. i + 1 < length [''http'', ''total_opened'']
                \<and> walk [(''http'', JString ''down'')] (take i [''http'', ''total_opened'']) = Some (m :: int jmap)
                \<and> \<not> is_mapping (map_of m ([''http'', ''total_opened''] ! i)))"
    by (rule exI [of _ 0]) simp
  from getFloatValue_error_iff [OF ne, of "[(''http'', JMap [(''total_opened'', JFloat64 (5::int))])]"]
    getFloatValue_error_iff [OF ne, of "[(''http'', JString ''down'') :: string \<times> int jvalue]"]
    ne ok bad
  show ?thesis by blast
qed

section \<open>The Elasticsearch extractor\<close>

lemma metricPlace_distinct: "distinct (map fst metricPlace)"
  by (simp add: metricPlace_def)


lemma metricPlace_range_stat:
  "distinct (map fst places) \<Longrightarrow>
   fst (metricPlace_range suppress node places stat logged) k =
     (case map_of places k of
        None \<Rightarrow> stat k
      | Some keys \<Rightarrow> (case getFloatValue node keys of Inl e \<Rightarrow> stat k | Inr x \<Rightarrow> Some x))"
proof (induction places arbitrary: stat logged)
  case Nil
  then show ?case by simp
next
  case (Cons kv places)
  obtain k' v where kv: "kv = (k', v)" by (cases kv)
  from Cons.prems kv have d: "distinct (map fst places)" and nin: "k' \<notin> fst ` set places"
    by simp_all
  from nin have none: "map_of places k' = None" by (simp add: map_of_eq_None_iff)
  show ?case
  proof (cases "getFloatValue node v")
    case (Inl e)
    then show ?thesis using kv Cons.IH [OF d] none by (simp split: option.splits)
  next
    case (Inr x)
    then show ?thesis using kv Cons.IH [OF d] none
      by (simp split: option.splits sum.splits)
  qed
qed

lemma metricPlace_range_logged:
  "snd (metricPlace_range suppress node places stat logged) =
     logged @ (if suppress then [] else missing_metrics node places)"
proof (induction places arbitrary: stat logged)
  case Nil
  then show ?case by (simp add: missing_metrics_def)
next
  case (Cons kv places)
  obtain k' v where kv: "kv = (k', v)" by (cases kv)
  show ?case
    using kv Cons.IH by (cases "getFloatValue node v") (simp_all add: missing_metrics_def)
qed

lemma metricPlace_range_eq:
  "metricPlace_range suppress node metricPlace Map.empty [] =
     (present_metrics node metricPlace, if suppress then [] else missing_metrics node metricPlace)"
proof (rule prod_eqI)
  show "fst (metricPlace_range suppress node metricPlace Map.empty []) =
        fst (present_metrics node metricPlace, if suppress then [] else missing_metrics node metricPlace)"
    by (rule ext)
      (simp add: metricPlace_range_stat [OF metricPlace_distinct] present_metrics_def
        split: option.splits sum.splits)
  show "snd (metricPlace_range suppress node metricPlace Map.empty []) =
        snd (present_metrics node metricPlace, if suppress then [] else missing_metrics node metricPlace)"
    by (simp add: metricPlace_range_logged)
qed

text \<open>
  A run that reaches the one node of the payload: the request is built, the target
  answers, the body decodes to \<open>s\<close>, \<open>s["nodes"]\<close> is a mapping whose loop over the keys ends
  with \<open>n\<close>, and \<open>nodes[n]\<close> is a mapping.
\<close>

lemma es_FetchMetrics_node:
  assumes "NewRequest env ''GET'' (ElasticsearchPlugin.URI p @ ''/_nodes/_local/stats'') = None"
    and "Do env (es_client p) (es_request p) = Inr resp"
    and "Decode env (Body resp) = Inr s"
    and "map_of s ''nodes'' = Some (JMap nodes)"
    and "nodes_range (map fst nodes) [] = Inr n"
    and "map_of nodes n = Some (JMap node)"
  shows "es_FetchMetrics env p =
     (Ok (present_metrics node metricPlace),
      if SuppressMissingError p then [] else missing_metrics node metricPlace)"
  using assms unfolding es_FetchMetrics_def by (simp add: metricPlace_range_eq)

lemma present_metrics_dom:
  "dom (present_metrics node places) =
     {k \<in> fst ` set places. \<exists>keys x. map_of places k = Some keys \<and> getFloatValue node keys = Inr x}"
proof -
  have "map_of places k = Some keys \<Longrightarrow> k \<in> fst ` set places" for k keys
    by (metis map_of_eq_None_iff option.distinct(1))
  then show ?thesis
    by (fastforce simp: present_metrics_def dom_def split: option.splits sum.splits)
qed

lemma missing_metrics_set:
  "set (missing_metrics node places) =
     {(k, e). \<exists>keys. (k, keys) \<in> set places \<and> getFloatValue node keys = Inl e}"
  by (auto simp: missing_metrics_def split: sum.splits)

lemma es_example_run:
  "es_FetchMetrics (es_example_env code status es_example_payload) es_example_plugin =
     (Ok (present_metrics es_example_node metricPlace),
      missing_metrics es_example_node metricPlace)"
  by (simp add: es_FetchMetrics_def es_example_env_def es_example_payload_def
      es_example_plugin_def metricPlace_range_eq)

lemma es_example_http_opened:
  "present_metrics es_example_node metricPlace ''http_opened'' = Some 5"
  by (simp add: present_metrics_def metricPlace_def getFloatValue_def es_example_node_def)

lemma es_example_heap_used:
  "getFloatValue es_example_node [''jvm'', ''mem'', ''heap_used_in_bytes'']
     = Inl CannotHandleAsAHash"
  by (simp add: getFloatValue_def es_example_node_def)

lemma es_example_heap_used_absent:
  "present_metrics es_example_node metricPlace ''heap_used'' = None"
  by (simp add: present_metrics_def metricPlace_def getFloatValue_def es_example_node_def)

text \<open>
  C1, as amended. With suppress-missing disabled (\<open>SuppressMissingError = false\<close>), a
  declared metric whose nested field is absent from the payload of the node is logged and
  skipped: \<open>FetchMetrics\<close> still returns a nil error, and its sample set holds every declared
  metric whose path leads to a number, and no other key. The flag only decides whether the
  missing metric is logged: with it enabled nothing is logged, and for either value of the
  flag the extraction does not abort and returns the same sample set.
\<close>

theorem es_missing_metric_logged_and_skipped:
  assumes "NewRequest env ''GET'' (ElasticsearchPlugin.URI p @ ''/_nodes/_local/stats'') = None"
    and "Do env (es_client p) (es_request p) = Inr resp"
    and "Decode env (Body resp) = Inr s"
    and "map_of s ''nodes'' = Some (JMap nodes)"
    and "nodes_range (map fst nodes) [] = Inr n"
    and "map_of nodes n = Some (JMap node)"
  shows "\<exists>stat logged.
           es_FetchMetrics env p = (Ok stat, logged)
           \<and> stat = present_metrics node metricPlace
           \<and> (\<forall>k keys. map_of metricPlace k = Some keys \<longrightarrow>
                 (case getFloatValue node keys of
                    Inl e \<Rightarrow> stat k = None
                            \<and> ((k, e) \<in> set logged \<longleftrightarrow> \<not> SuppressMissingError p)
                  | Inr x \<Rightarrow> stat k = Some x \<and> k \<notin> fst ` set logged))
           \<and> dom stat \<subseteq> fst ` set metricPlace
           \<and> (SuppressMissingError p \<longrightarrow> logged = [])"
proof -
  let ?stat = "present_metrics node metricPlace"
  let ?missing = "missing_metrics node metricPlace"
  let ?logged = "if SuppressMissingError p then [] else ?missing"
  have run: "es_FetchMetrics env p = (Ok ?stat, ?logged)"
    by (rule es_FetchMetrics_node [OF assms])
  have each: "case getFloatValue node keys of
                Inl e \<Rightarrow> ?stat k = None
                        \<and> ((k, e) \<in> set ?logged \<longleftrightarrow> \<not> SuppressMissingError p)
              | Inr x \<Rightarrow> ?stat k = Some x \<and> k \<notin> fst ` set ?logged"
    if place: "map_of metricPlace k = Some keys" for k keys
  proof (cases "getFloatValue node keys")
    case (Inl e)
    have "(k, keys) \<in> set metricPlace" using place by (rule map_of_SomeD)
    then have "(k, e) \<in> set ?missing" using Inl by (auto simp: missing_metrics_set)
    then have "(k, e) \<in> set ?logged \<longleftrightarrow> \<not> SuppressMissingError p" by simp
    then show ?thesis using Inl place by (simp add: present_metrics_def)
  next
    case (Inr x)
    have "k \<notin> fst ` set ?missing"
    proof
      assume "k \<in> fst ` set ?missing"
      then obtain e keys' where "(k, keys') \<in> set metricPlace"
        and bad: "getFloatValue node keys' = Inl e"
        by (auto simp: missing_metrics_set)
      then have "map_of metricPlace k = Some keys'"
        using metricPlace_distinct by simp
      then have "keys' = keys" using place by simp
      then show False using bad Inr by simp
    qed
    then have "k \<notin> fst ` set ?logged" by simp
    then show ?thesis using Inr place by (simp add: present_metrics_def)
  qed
  have sub: "dom ?stat \<subseteq> fst ` set metricPlace"
    by (auto simp: present_metrics_dom)
  have quiet: "SuppressMissingError p \<longrightarrow> ?logged = []" by simp
  show ?thesis
  proof (intro exI conjI)
    show "es_FetchMetrics env p = (Ok ?stat, ?logged)" by (rule run)
    show "?stat = present_metrics node metricPlace" by (rule refl)
    show "\<forall>k keys. map_of metricPlace k = Some keys \<longrightarrow>
                 (case getFloatValue node keys of
                    Inl e \<Rightarrow> ?stat k = None
                            \<and> ((k, e) \<in> set ?logged \<longleftrightarrow> \<not> SuppressMissingError p)
                  | Inr x \<Rightarrow> ?stat k = Some x \<and> k \<notin> fst ` set ?logged)"
      using each by blast
    show "dom ?stat \<subseteq> fst ` set metricPlace" by (rule sub)
    show "SuppressMissingError p \<longrightarrow> ?logged = []" by (rule quiet)
  qed
qed

theorem es_missing_metric_logged_and_skipped_witness:
  "\<not> SuppressMissingError es_example_plugin
   \<and> SuppressMissingError (es_example_plugin\<lparr>SuppressMissingError := True\<rparr>)
   \<and> getFloatValue es_example_node [''jvm'', ''mem'', ''heap_used_in_bytes'']
       = Inl CannotHandleAsAHash
   \<and> (\<exists>logged.
         es_FetchMetrics (es_example_env 200 ''200 OK'' es_example_payload) es_example_plugin
           = (Ok (present_metrics es_example_node metricPlace), logged)
         \<and> (''heap_used'', CannotHandleAsAHash) \<in> set logged)
   \<and> es_FetchMetrics (es_example_env 200 ''200 OK'' es_example_payload)
         (es_example_plugin\<lparr>SuppressMissingError := True\<rparr>)
       = (Ok (present_metrics es_example_node metricPlace), [])
   \<and> present_metrics es_example_node metricPlace ''http_opened'' = Some 5
   \<and> present_metrics es_example_node metricPlace ''heap_used'' = None"
proof -
  let ?env = "es_example_env 200 ''200 OK'' es_example_payload"
  let ?resp = "\<lparr>StatusCode = 200, Status = ''200 OK'', Body = es_example_payload\<rparr>"
  let ?off = es_example_plugin
  let ?on = "es_example_plugin\<lparr>SuppressMissingError := True\<rparr>"
  have off: "\<not> SuppressMissingError ?off" by (simp add: es_example_plugin_def)
  have on: "SuppressMissingError ?on" by simp
  have place: "map_of metricPlace ''heap_used'' = Some [''jvm'', ''mem'', ''heap_used_in_bytes'']"
    by (simp add: metricPlace_def)
  have 2: "NewRequest ?env ''GET'' (ElasticsearchPlugin.URI q @ ''/_nodes/_local/stats'') = None"
    for q by (simp add: es_example_env_def)
  have 3: "Do ?env (es_client q) (es_request q) = Inr ?resp" for q
    by (simp add: es_example_env_def)
  have 4: "Decode ?env (Body ?resp) = Inr es_example_payload"
    by (simp add: es_example_env_def)
  have 5: "map_of es_example_payload ''nodes'' = Some (JMap [(''n1'', JMap es_example_node)])"
    by (simp add: es_example_payload_def)
  have 6: "nodes_range (map fst [(''n1'', JMap es_example_node)]) [] = Inr ''n1''"
    by simp
  have 7: "map_of [(''n1'', JMap es_example_node)] ''n1'' = Some (JMap es_example_node)"
    by simp
  from es_missing_metric_logged_and_skipped [OF 2 3 4 5 6 7, of ?off]
  obtain stat logged where
    run_off: "es_FetchMetrics ?env ?off = (Ok stat, logged)"
    and stat_off: "stat = present_metrics es_example_node metricPlace"
    and each_off: "\<forall>k keys. map_of metricPlace k = Some keys \<longrightarrow>
                 (case getFloatValue es_example_node keys of
                    Inl e \<Rightarrow> stat k = None
                            \<and> ((k, e) \<in> set logged \<longleftrightarrow> \<not> SuppressMissingError ?off)
                  | Inr x \<Rightarrow> stat k = Some x \<and> k \<notin> fst ` set logged)"
    by (elim exE conjE)
  from each_off place es_example_heap_used off
  have logged_off: "(''heap_used'', CannotHandleAsAHash) \<in> set logged"
    by (auto dest!: spec [of _ "''heap_used''"])
  from run_off stat_off logged_off have A: "\<exists>logged.
         es_FetchMetrics ?env ?off = (Ok (present_metrics es_example_node metricPlace), logged)
         \<and> (''heap_used'', CannotHandleAsAHash) \<in> set logged"
    by blast
  from es_missing_metric_logged_and_skipped [OF 2 3 4 5 6 7, of ?on]
  obtain stat' logged' where
    run_on: "es_FetchMetrics ?env ?on = (Ok stat', logged')"
    and stat_on: "stat' = present_metrics es_example_node metricPlace"
    and quiet: "SuppressMissingError ?on \<longrightarrow> logged' = []"
    by (elim exE conjE)
  from run_on stat_on quiet on have B:
    "es_FetchMetrics ?env ?on = (Ok (present_metrics es_example_node metricPlace), [])"
    by simp
  from off on es_example_heap_used A B es_example_http_opened es_example_heap_used_absent
  show ?thesis by (intro conjI)
qed

theorem es_missing_metric_does_not_abort:
  "\<not> SuppressMissingError es_example_plugin
   \<and> map_of metricPlace ''heap_used'' = Some [''jvm'', ''mem'', ''heap_used_in_bytes'']
   \<and> getFloatValue es_example_node [''jvm'', ''mem'', ''heap_used_in_bytes'']
       = Inl CannotHandleAsAHash
   \<and> (\<exists>stat logged.
         es_FetchMetrics (es_example_env 200 ''200 OK'' es_example_payload) es_example_plugin
           = (Ok stat, logged)
         \<and> stat ''http_opened'' = Some 5 \<and> stat ''heap_used'' = None)"
proof -
  have "\<not> SuppressMissingError es_example_plugin"
    by (simp add: es_example_plugin_def)
  moreover have "map_of metricPlace ''heap_used'' = Some [''jvm'', ''mem'', ''heap_used_in_bytes'']"
    by (simp add: metricPlace_def)
  ultimately show ?thesis
    using es_example_run [of 200 "''200 OK''"] es_example_http_opened
      es_example_heap_used es_example_heap_used_absent
    by blast
qed

text \<open>
  C10. When the body decodes to a JSON object whose top level has no \<open>"nodes"\<close> key or
  whose \<open>"nodes"\<close> value is not a nested mapping, or whose single node entry is not a nested
  mapping, \<open>FetchMetrics\<close> of the Elasticsearch plugin makes an unchecked type assertion
  and panics; it does not return an error.
\<close>

theorem es_FetchMetrics_panics_on_unexpected_shape:
  assumes "NewRequest env ''GET'' (ElasticsearchPlugin.URI p @ ''/_nodes/_local/stats'') = None"
    and "Do env (es_client p) (es_request p) = Inr resp"
    and "Decode env (Body resp) = Inr s"
    and "\<not> is_mapping (map_of s ''nodes'')
         \<or> (\<exists>k v. map_of s ''nodes'' = Some (JMap [(k, v)]) \<and> \<not> is_mapping (Some v))"
  shows "es_FetchMetrics env p = (Panic InterfaceConversion, [])"
  using assms(4)
proof
  assume "\<not> is_mapping (map_of s ''nodes'')"
  then have "case map_of s ''nodes'' of Some (JMap nodes) \<Rightarrow> False | _ \<Rightarrow> True"
    by (auto simp: is_mapping_iff split: option.splits jvalue.splits)
  then show ?thesis
    using assms(1-3) unfolding es_FetchMetrics_def
    by (simp split: option.splits jvalue.splits)
next
  assume "\<exists>k v. map_of s ''nodes'' = Some (JMap [(k, v)]) \<and> \<not> is_mapping (Some v)"
  then obtain k v where nodes: "map_of s ''nodes'' = Some (JMap [(k, v)])"
    and v: "\<not> is_mapping (Some v)" by blast
  from v have "case v of JMap node \<Rightarrow> False | _ \<Rightarrow> True"
    by (cases v) simp_all
  then show ?thesis
    using assms(1-3) nodes unfolding es_FetchMetrics_def
    by (simp split: jvalue.splits)
qed

theorem es_FetchMetrics_panics_on_unexpected_shape_witness:
  "es_FetchMetrics (es_example_env 200 ''200 OK'' [(''status'', JFloat64 500)])
     es_example_plugin = (Panic InterfaceConversion, [])
   \<and> es_FetchMetrics (es_example_env 200 ''200 OK'' [(''nodes'', JMap [(''n1'', JFloat64 3)])])
       es_example_plugin = (Panic InterfaceConversion, [])"
proof -
  let ?p = es_example_plugin
  let ?s1 = "[(''status'', JFloat64 500)] :: real jmap"
  let ?s2 = "[(''nodes'', JMap [(''n1'', JFloat64 3)])] :: real jmap"
  let ?r1 = "\<lparr>StatusCode = 200, Status = ''200 OK'', Body = ?s1\<rparr>"
  let ?r2 = "\<lparr>StatusCode = 200, Status = ''200 OK'', Body = ?s2\<rparr>"
  have a1: "NewRequest (es_example_env 200 ''200 OK'' ?s1) ''GET''
              (ElasticsearchPlugin.URI ?p @ ''/_nodes/_local/stats'') = None"
    and b1: "Do (es_example_env 200 ''200 OK'' ?s1) (es_client ?p) (es_request ?p) = Inr ?r1"
    and c1: "Decode (es_example_env 200 ''200 OK'' ?s1) (Body ?r1) = Inr ?s1"
    by (simp_all add: es_example_env_def)
  have d1: "\<not> is_mapping (map_of ?s1 ''nodes'')
         \<or> (\<exists>k v. map_of ?s1 ''nodes'' = Some (JMap [(k, v)]) \<and> \<not> is_mapping (Some v))"
    by simp
  have a2: "NewRequest (es_example_env 200 ''200 OK'' ?s2) ''GET''
              (ElasticsearchPlugin.URI ?p @ ''/_nodes/_local/stats'') = None"
    and b2: "Do (es_example_env 200 ''200 OK'' ?s2) (es_client ?p) (es_request ?p) = Inr ?r2"
    and c2: "Decode (es_example_env 200 ''200 OK'' ?s2) (Body ?r2) = Inr ?s2"
    by (simp_all add: es_example_env_def)
  have d2: "\<not> is_mapping (map_of ?s2 ''nodes'')
         \<or> (\<exists>k v. map_of ?s2 ''nodes'' = Some (JMap [(k, v)]) \<and> \<not> is_mapping (Some v))"
    by simp
  from es_FetchMetrics_panics_on_unexpected_shape [OF a1 b1 c1 d1]
    es_FetchMetrics_panics_on_unexpected_shape [OF a2 b2 c2 d2]
  show ?thesis by simp
qed

section \<open>The HAProxy extractor\<close>

lemma add_to_apply:
  "add_to stat k d k' = (if k' = k then Some ((case stat k of None \<Rightarrow> 0 | Some v \<Rightarrow> v) + d) else stat k')"
  by (simp add: add_to_def)

text \<open>One \<open>BACKEND\<close> row whose four columns parse is added to the four accumulators.\<close>

lemma parseStats_loop_backend:
  assumes "60 \<le> length columns" and "columns ! 1 = ''BACKEND''"
    and "pf (columns ! 7) = Some d7" and "pf (columns ! 8) = Some d8"
    and "pf (columns ! 9) = Some d9" and "pf (columns ! 13) = Some d13"
  shows "parseStats_loop pf ((columns, err) # rest) stat =
     parseStats_loop pf rest
       (add_to (add_to (add_to (add_to stat ''sessions'' d7) ''bytes_in'' d8)
          ''bytes_out'' d9) ''connection_errors'' d13)"
  using assms by simp

lemma parseStats_loop_other:
  "60 \<le> length columns \<Longrightarrow> columns ! 1 \<noteq> ''BACKEND'' \<Longrightarrow>
   parseStats_loop pf ((columns, err) # rest) stat = parseStats_loop pf rest stat"
  by simp

lemma parseStats_loop_short:
  "length columns < 60 \<Longrightarrow>
   parseStats_loop pf ((columns, err) # rest) stat = Err StatsCsvTooShort"
  by simp

lemma parseStats_loop_not_Panic: "parseStats_loop pf reads stat \<noteq> Panic x"
  by (induction pf reads stat rule: parseStats_loop.induct)
    (simp_all split: option.splits)

lemma four_updates:
  "(add_to (add_to (add_to (add_to stat ''sessions'' d7) ''bytes_in'' d8)
      ''bytes_out'' d9) ''connection_errors'' d13) =
   stat(''sessions'' \<mapsto> (case stat ''sessions'' of None \<Rightarrow> 0 | Some v \<Rightarrow> v) + d7,
        ''bytes_in'' \<mapsto> (case stat ''bytes_in'' of None \<Rightarrow> 0 | Some v \<Rightarrow> v) + d8,
        ''bytes_out'' \<mapsto> (case stat ''bytes_out'' of None \<Rightarrow> 0 | Some v \<Rightarrow> v) + d9,
        ''connection_errors'' \<mapsto>
           (case stat ''connection_errors'' of None \<Rightarrow> 0 | Some v \<Rightarrow> v) + d13)"
  by (rule ext) (simp add: add_to_apply)

text \<open>
  The loop over rows that all have 60 columns or more and whose \<open>BACKEND\<close> rows are numeric,
  from any map \<open>stat\<close>: without a \<open>BACKEND\<close> row the map is returned as it is; otherwise the
  four keys hold the sums of their columns, started from what \<open>stat\<close> reads for them.
\<close>

lemma parseStats_loop_sums:
  assumes "\<forall>r \<in> set reads. 60 \<le> length (fst r)"
    and "\<forall>r \<in> set reads. is_backend r \<longrightarrow> numeric_row pf r"
  shows "parseStats_loop pf reads stat =
     Ok (if filter is_backend reads = [] then stat
         else stat
           (''sessions'' \<mapsto> column_sum pf 7
              (case stat ''sessions'' of None \<Rightarrow> 0 | Some v \<Rightarrow> v) (filter is_backend reads),
            ''bytes_in'' \<mapsto> column_sum pf 8
              (case stat ''bytes_in'' of None \<Rightarrow> 0 | Some v \<Rightarrow> v) (filter is_backend reads),
            ''bytes_out'' \<mapsto> column_sum pf 9
              (case stat ''bytes_out'' of None \<Rightarrow> 0 | Some v \<Rightarrow> v) (filter is_backend reads),
            ''connection_errors'' \<mapsto> column_sum pf 13
              (case stat ''connection_errors'' of None \<Rightarrow> 0 | Some v \<Rightarrow> v)
              (filter is_backend reads)))"
  using assms
proof (induction reads arbitrary: stat)
  case Nil
  then show ?case by simp
next
  case (Cons r reads)
  obtain columns err where r: "r = (columns, err)" by (cases r)
  from Cons.prems r have len: "60 \<le> length columns" by simp
  from Cons.prems have rest: "\<forall>r \<in> set reads. 60 \<le> length (fst r)"
    "\<forall>r \<in> set reads. is_backend r \<longrightarrow> numeric_row pf r" by simp_all
  note IH = Cons.IH [OF rest]
  show ?case
  proof (cases "is_backend r")
    case False
    then have "columns ! 1 \<noteq> ''BACKEND''" using r by (simp add: is_backend_def)
    then show ?thesis
      using False r len IH [of stat] by (simp add: parseStats_loop_other del: parseStats_loop.simps)
  next
    case True
    then have b: "columns ! 1 = ''BACKEND''" using r by (simp add: is_backend_def)
    from True Cons.prems(2) have "numeric_row pf r" by simp
    then obtain d7 d8 d9 d13 where d:
      "pf (columns ! 7) = Some d7" "pf (columns ! 8) = Some d8"
      "pf (columns ! 9) = Some d9" "pf (columns ! 13) = Some d13"
      using r by (auto simp: numeric_row_def)
    let ?stat' = "add_to (add_to (add_to (add_to stat ''sessions'' d7) ''bytes_in'' d8)
          ''bytes_out'' d9) ''connection_errors'' d13"
    have step: "parseStats_loop pf (r # reads) stat = parseStats_loop pf reads ?stat'"
      unfolding r by (rule parseStats_loop_backend [OF len b d])
    show ?thesis
      unfolding step IH [of ?stat']
      using True r d
      by (auto simp: four_updates column_sum_def)
  qed
qed

text \<open>
  A row with fewer than 60 columns makes the loop return an error whatever was read
  before; the error is the one for a short row when the rows before it were accepted.
\<close>

lemma parseStats_loop_short_row_Err:
  "\<exists>r \<in> set reads. length (fst r) < 60 \<Longrightarrow> \<exists>e. parseStats_loop pf reads stat = Err e"
proof (induction reads arbitrary: stat)
  case Nil
  then show ?case by simp
next
  case (Cons r reads)
  obtain columns err where r: "r = (columns, err)" by (cases r)
  show ?case
  proof (cases "length columns < 60")
    case True
    then show ?thesis using r by simp
  next
    case False
    with Cons.prems r have "\<exists>r \<in> set reads. length (fst r) < 60" by simp
    from Cons.IH [OF this] have "\<exists>e. parseStats_loop pf reads st = Err e" for st .
    then show ?thesis using False r by (simp split: option.splits)
  qed
qed

lemma parseStats_loop_short_row_TooShort:
  assumes "\<exists>r \<in> set reads. length (fst r) < 60"
    and "\<forall>r \<in> set (takeWhile (\<lambda>r. 60 \<le> length (fst r)) reads).
           is_backend r \<longrightarrow> numeric_row pf r"
  shows "parseStats_loop pf reads stat = Err StatsCsvTooShort"
  using assms
proof (induction reads arbitrary: stat)
  case Nil
  then show ?case by simp
next
  case (Cons r reads)
  obtain columns err where r: "r = (columns, err)" by (cases r)
  show ?case
  proof (cases "length columns < 60")
    case True
    then show ?thesis using r by simp
  next
    case False
    with Cons.prems r have short: "\<exists>r \<in> set reads. length (fst r) < 60" by simp
    from False Cons.prems(2) r
    have valid: "\<forall>r \<in> set (takeWhile (\<lambda>r. 60 \<le> length (fst r)) reads).
           is_backend r \<longrightarrow> numeric_row pf r"
      and here: "is_backend r \<longrightarrow> numeric_row pf r"
      by simp_all
    note IH = Cons.IH [OF short valid]
    show ?thesis
    proof (cases "is_backend r")
      case False
      then have "columns ! 1 \<noteq> ''BACKEND''" using r by (simp add: is_backend_def)
      then show ?thesis using r \<open>\<not> length columns < 60\<close> IH by simp
    next
      case True
      with here have "numeric_row pf r" by simp
      then obtain d7 d8 d9 d13 where
        "pf (columns ! 7) = Some d7" "pf (columns ! 8) = Some d8"
        "pf (columns ! 9) = Some d9" "pf (columns ! 13) = Some d13"
        using r by (auto simp: numeric_row_def)
      then show ?thesis using r \<open>\<not> length columns < 60\<close> IH by simp
    qed
  qed
qed

text \<open>
  C6. In the HAProxy tabular extractor, for every CSV input, a row with fewer than 60
  columns aborts the whole extraction with an error and no metric map is returned, even if
  rows read earlier were valid and had already been added to the accumulators; when the
  rows read before it were accepted, the error is the one for a statistics CSV that is too
  short.
\<close>

theorem parseStats_short_row_aborts:
  assumes "\<exists>r \<in> set (csv_Reader env statsBody). length (fst r) < 60"
  shows "(\<exists>e. parseStats env statsBody = Err e)
         \<and> ((\<forall>r \<in> set (takeWhile (\<lambda>r. 60 \<le> length (fst r)) (csv_Reader env statsBody)).
                is_backend r \<longrightarrow> numeric_row (ParseFloat env) r)
              \<longrightarrow> parseStats env statsBody = Err StatsCsvTooShort)"
  unfolding parseStats_def
  using parseStats_loop_short_row_Err [OF assms]
    parseStats_loop_short_row_TooShort [OF assms]
  by blast

theorem parseStats_short_row_aborts_witness:
  "length (fst ([''www'', ''BACKEND''], None :: error option)) < 60
   \<and> parseStats (haproxy_example_env 200 ''200 OK'' [])
        [haproxy_example_row ''BACKEND'' ''10'' ''100'' ''200'' ''1'',
         ([''www'', ''BACKEND''], None)]
       = Err StatsCsvTooShort"
proof -
  let ?env = "haproxy_example_env 200 ''200 OK'' []"
  let ?rows = "[haproxy_example_row ''BACKEND'' ''10'' ''100'' ''200'' ''1'',
         ([''www'', ''BACKEND''], None)]"
  have short: "\<exists>r \<in> set (csv_Reader ?env ?rows). length (fst r) < 60"
    by (simp add: haproxy_example_env_def)
  have before: "\<forall>r \<in> set (takeWhile (\<lambda>r. 60 \<le> length (fst r)) (csv_Reader ?env ?rows)).
                is_backend r \<longrightarrow> numeric_row (ParseFloat ?env) r"
    by (simp add: haproxy_example_env_def haproxy_example_row_def numeric_row_def
        example_ParseFloat_def)
  from parseStats_short_row_aborts [OF short] before
  show ?thesis by simp
qed

text \<open>
  C7, as amended. In the HAProxy tabular extractor, for every CSV input whose rows all have
  at least 60 columns and whose \<open>BACKEND\<close> rows have numeric designated columns: if no row
  has the discriminator \<open>BACKEND\<close> the returned map is empty; otherwise it is exactly
  \<open>{sessions, bytes_in, bytes_out, connection_errors}\<close>, each value being the sum, started from
  zero and taken in the order of the rows, of column 7, 8, 9 and 13 over precisely the
  \<open>BACKEND\<close> rows. A row with another discriminator adds nothing.
\<close>

theorem parseStats_sums_backend_rows:
  assumes "\<forall>r \<in> set (csv_Reader env statsBody). 60 \<le> length (fst r)"
    and "\<forall>r \<in> set (csv_Reader env statsBody).
           is_backend r \<longrightarrow> numeric_row (ParseFloat env) r"
  shows "parseStats env statsBody =
     Ok (if filter is_backend (csv_Reader env statsBody) = [] then Map.empty
         else Map.empty
           (''sessions'' \<mapsto>
              column_sum (ParseFloat env) 7 0 (filter is_backend (csv_Reader env statsBody)),
            ''bytes_in'' \<mapsto>
              column_sum (ParseFloat env) 8 0 (filter is_backend (csv_Reader env statsBody)),
            ''bytes_out'' \<mapsto>
              column_sum (ParseFloat env) 9 0 (filter is_backend (csv_Reader env statsBody)),
            ''connection_errors'' \<mapsto>
              column_sum (ParseFloat env) 13 0 (filter is_backend (csv_Reader env statsBody))))"
  unfolding parseStats_def
  using parseStats_loop_sums [OF assms, of Map.empty] by simp

theorem parseStats_sums_backend_rows_witness:
  "parseStats (haproxy_example_env 200 ''200 OK'' [])
     [haproxy_example_row ''FRONTEND'' ''7'' ''70'' ''700'' ''3'',
      haproxy_example_row ''BACKEND'' ''10'' ''100'' ''200'' ''1'',
      haproxy_example_row ''FRONTEND'' ''x'' ''y'' ''z'' ''w'']
   = Ok (Map.empty(''sessions'' \<mapsto> 10, ''bytes_in'' \<mapsto> 100, ''bytes_out'' \<mapsto> 200,
           ''connection_errors'' \<mapsto> 1))"
proof -
  let ?env = "haproxy_example_env 200 ''200 OK'' []"
  let ?rows = "[haproxy_example_row ''FRONTEND'' ''7'' ''70'' ''700'' ''3'',
      haproxy_example_row ''BACKEND'' ''10'' ''100'' ''200'' ''1'',
      haproxy_example_row ''FRONTEND'' ''x'' ''y'' ''z'' ''w'']"
  have rd: "csv_Reader ?env ?rows = ?rows" and pf: "ParseFloat ?env = example_ParseFloat"
    by (simp_all add: haproxy_example_env_def)
  have wide: "\<forall>r \<in> set (csv_Reader ?env ?rows). 60 \<le> length (fst r)"
    unfolding rd by (simp add: haproxy_example_row_def)
  have num: "\<forall>r \<in> set (csv_Reader ?env ?rows). is_backend r \<longrightarrow> numeric_row (ParseFloat ?env) r"
    unfolding rd pf
    by (simp add: haproxy_example_row_def is_backend_def numeric_row_def example_ParseFloat_def)
  have b: "filter is_backend ?rows = [haproxy_example_row ''BACKEND'' ''10'' ''100'' ''200'' ''1'']"
    by (simp add: haproxy_example_row_def is_backend_def)
  have sums:
    "column_sum example_ParseFloat 7 0 [haproxy_example_row ''BACKEND'' ''10'' ''100'' ''200'' ''1''] = 10"
    "column_sum example_ParseFloat 8 0 [haproxy_example_row ''BACKEND'' ''10'' ''100'' ''200'' ''1''] = 100"
    "column_sum example_ParseFloat 9 0 [haproxy_example_row ''BACKEND'' ''10'' ''100'' ''200'' ''1''] = 200"
    "column_sum example_ParseFloat 13 0 [haproxy_example_row ''BACKEND'' ''10'' ''100'' ''200'' ''1''] = 1"
    by (simp_all add: column_sum_def haproxy_example_row_def example_ParseFloat_def)
  show ?thesis
    using parseStats_sums_backend_rows [OF wide num]
    unfolding rd pf b sums by simp
qed

theorem parseStats_without_backend_row_is_empty:
  "60 \<le> length (fst (haproxy_example_row ''FRONTEND'' ''7'' ''70'' ''700'' ''3''))
   \<and> parseStats (haproxy_example_env 200 ''200 OK'' [])
       [haproxy_example_row ''FRONTEND'' ''7'' ''70'' ''700'' ''3''] = Ok Map.empty
   \<and> dom (Map.empty :: string \<rightharpoonup> real)
       \<noteq> {''sessions'', ''bytes_in'', ''bytes_out'', ''connection_errors''}"
  by (simp add: parseStats_def haproxy_example_env_def haproxy_example_row_def)

text \<open>
  C3, as amended. For the HAProxy plugin fetching over HTTP, every run in which the target
  responds with a status other than 200 fails: \<open>FetchMetrics\<close> returns an error carrying the
  status line and the request URI, and no metric map. The Elasticsearch and PHP-FPM plugins
  never read the status of the response: what \<open>FetchMetrics\<close> returns for a response does not
  change when its status does.
\<close>

theorem haproxy_non_200_status_fails:
  assumes "Socket p = []"
    and "NewRequest env ''GET'' (HAProxyPlugin.URI p @ '';csv;norefresh'') = None"
    and "Do env haproxy_client (haproxy_request p) = Inr resp"
    and "StatusCode resp \<noteq> 200"
  shows "haproxy_FetchMetrics env p =
           Err (RequestFailed (Status resp) (HAProxyPlugin.URI p @ '';csv;norefresh''))
         \<and> es_FetchMetrics
              (es_env\<lparr>Do := \<lambda>client req. Inr (es_resp\<lparr>StatusCode := code, Status := status\<rparr>)\<rparr>) es_p
           = es_FetchMetrics (es_env\<lparr>Do := \<lambda>client req. Inr es_resp\<rparr>) es_p
         \<and> phpfpm_FetchMetrics
              (php_env\<lparr>Do := \<lambda>client req. Inr (php_resp\<lparr>StatusCode := code, Status := status\<rparr>)\<rparr>) php_p
           = phpfpm_FetchMetrics (php_env\<lparr>Do := \<lambda>client req. Inr php_resp\<rparr>) php_p"
proof -
  have "haproxy_FetchMetrics env p =
           Err (RequestFailed (Status resp) (HAProxyPlugin.URI p @ '';csv;norefresh''))"
    using assms by (simp add: haproxy_FetchMetrics_def fetchMetricsFromTCP_def)
  moreover have "es_FetchMetrics
              (es_env\<lparr>Do := \<lambda>client req. Inr (es_resp\<lparr>StatusCode := code, Status := status\<rparr>)\<rparr>) es_p
           = es_FetchMetrics (es_env\<lparr>Do := \<lambda>client req. Inr es_resp\<rparr>) es_p"
    by (simp add: es_FetchMetrics_def cong: option.case_cong sum.case_cong)
  moreover have "phpfpm_FetchMetrics
              (php_env\<lparr>Do := \<lambda>client req. Inr (php_resp\<lparr>StatusCode := code, Status := status\<rparr>)\<rparr>) php_p
           = phpfpm_FetchMetrics (php_env\<lparr>Do := \<lambda>client req. Inr php_resp\<rparr>) php_p"
    by (simp add: phpfpm_FetchMetrics_def getStatus_def cong: option.case_cong sum.case_cong)
  ultimately show ?thesis by blast
qed

theorem haproxy_non_200_status_fails_witness:
  "Socket haproxy_example_plugin = []
   \<and> (500::int) \<noteq> 200
   \<and> haproxy_FetchMetrics
        (haproxy_example_env 500 ''500 Internal Server Error''
           [haproxy_example_row ''BACKEND'' ''10'' ''100'' ''200'' ''1''])
        haproxy_example_plugin
       = Err (RequestFailed ''500 Internal Server Error'' ''http://localhost:80/;csv;norefresh'')"
proof -
  let ?rows = "[haproxy_example_row ''BACKEND'' ''10'' ''100'' ''200'' ''1'']"
  let ?env = "haproxy_example_env 500 ''500 Internal Server Error'' ?rows"
  let ?resp = "\<lparr>StatusCode = 500, Status = ''500 Internal Server Error'', Body = ?rows\<rparr>"
  have 1: "Socket haproxy_example_plugin = []"
    by (simp add: haproxy_example_plugin_def)
  have 2: "NewRequest ?env ''GET'' (HAProxyPlugin.URI haproxy_example_plugin @ '';csv;norefresh'') = None"
    by (simp add: haproxy_example_env_def)
  have 3: "Do ?env haproxy_client (haproxy_request haproxy_example_plugin) = Inr ?resp"
    by (simp add: haproxy_example_env_def)
  have 4: "StatusCode ?resp \<noteq> 200" by simp
  from haproxy_non_200_status_fails [OF 1 2 3 4, THEN conjunct1] 1
  show ?thesis by (simp add: haproxy_example_plugin_def)
qed

theorem es_ignores_status_500:
  "(\<exists>stat logged.
      es_FetchMetrics (es_example_env 500 ''500 Internal Server Error'' es_example_payload)
        es_example_plugin = (Ok stat, logged)
      \<and> stat ''http_opened'' = Some 5)
   \<and> es_FetchMetrics
        (es_example_env 500 ''500 Internal Server Error'' [(''status'', JFloat64 500)])
        es_example_plugin = (Panic InterfaceConversion, [])"
proof -
  have "es_FetchMetrics
        (es_example_env 500 ''500 Internal Server Error'' [(''status'', JFloat64 500)])
        es_example_plugin = (Panic InterfaceConversion, [])"
    by (simp add: es_FetchMetrics_def es_example_env_def)
  then show ?thesis
    using es_example_run [of 500 "''500 Internal Server Error''"] es_example_http_opened
    by simp
qed

section \<open>The PHP-FPM plugin\<close>



text \<open>
  When \<open>json.Unmarshal\<close> leaves the pointer nil, \<open>getStatus\<close> returns it with a nil error and
  \<open>FetchMetrics\<close> dereferences it.
\<close>

lemma getStatus_drops_Unmarshal_error:
  assumes "NewRequest env ''GET'' (PhpFpmPlugin.URL p) = None"
    and "Do env (phpfpm_client p) (phpfpm_request p) = Inr res"
    and "ReadAll env (Body res) = Inr body"
    and "Unmarshal env body = (status, err)"
  shows "getStatus env p = Inr status"
  using assms by (simp add: getStatus_def)

lemma phpfpm_FetchMetrics_nil_status:
  "getStatus env p = Inr None \<Longrightarrow> phpfpm_FetchMetrics env p = Panic NilPointerDereference"
  by (simp add: phpfpm_FetchMetrics_def)


text \<open>
  C5. A payload that is structurally unparseable makes the run fail with an error returned
  by the fetch stage. The PHP-FPM plugin does not do so: for the status page in its text
  format, answered with status 200, \<open>json.Unmarshal\<close> fails and leaves the pointer nil,
  \<open>getStatus\<close> returns the nil pointer with a nil error, and \<open>FetchMetrics\<close> panics on it
  instead of returning an error.
\<close>

theorem phpfpm_unparseable_body_panics:
  "getStatus
     (phpfpm_example_env 200 ''200 OK'' ''pool: www''
        (None, Some (LibraryError ''invalid character p looking for beginning of value'')))
     phpfpm_example_plugin = Inr None
   \<and> phpfpm_FetchMetrics
       (phpfpm_example_env 200 ''200 OK'' ''pool: www''
          (None, Some (LibraryError ''invalid character p looking for beginning of value'')))
       phpfpm_example_plugin = Panic NilPointerDereference"
  by (simp add: phpfpm_FetchMetrics_def getStatus_def phpfpm_example_env_def)

section \<open>Keys of the sample sets\<close>








section \<open>Timeouts of the HTTP clients\<close>



lemma phpfpm_timeout_wraps:
  "sint ((9223372037 :: 64 word) * Second) < 0"
  by (simp add: Second_def)




end
